theory Spec2Isabelle
  imports Complex_Main
begin

section \<open>Strings and the library interface\<close>

text \<open>
  A Python \<open>str\<close> is a sequence of Unicode code points, and \<open>len\<close> counts code points.
  A string is therefore modelled as a list of code points (natural numbers), not as a list
  of bytes.
\<close>

type_synonym pystr = "nat list"

abbreviation SPACE :: nat where
  "SPACE \<equiv> 32"

text \<open>Exceptions raised by library calls are values.\<close>

datatype error = ValueError | RequestException | AttributeError

text \<open>A \<open>datetime\<close> produced by \<open>strptime\<close> with the format \<open>%d.%m.%Y\<close>.\<close>

datatype date = Date (day: nat) (month: nat) (year: nat)

text \<open>
  The notebook is glue around third-party calls whose code is not part of the repository.
  Each of them is a field of the record \<open>library\<close>, and the notebook's own functions take
  the record as a parameter:
  \<^item> \<open>isspace\<close>: the whitespace test shared by \<open>str.strip\<close>, \<open>str.split\<close> and the regex
    class \<open>\s\<close>;
  \<^item> \<open>isword\<close>, \<open>isdigit\<close>: the regex classes \<open>\w\<close> and \<open>\d\<close> (Unicode mode);
  \<^item> \<open>lower\<close>: \<open>str.lower\<close>;
  \<^item> \<open>word_tokenize\<close>: \<open>nltk.tokenize.word_tokenize(text, language="russian")\<close>;
  \<^item> \<open>russian_stop\<close>: \<open>set(stopwords.words("russian"))\<close>;
  \<^item> \<open>py_float\<close>: \<open>float(s)\<close>, with \<open>Inl\<close> for the exception it raises;
  \<^item> \<open>strptime\<close>: \<open>datetime.strptime(s, "%d.%m.%Y")\<close>, with \<open>Inl\<close> for the exception;
  \<^item> \<open>compound\<close>: \<open>sia.polarity_scores(text)["compound"]\<close>.

  A float is modelled by the real number it denotes; infinities and NaN have no
  counterpart (pandas reads NaN as a missing value, which is \<open>None\<close> here).
\<close>

record library =
  isspace :: "nat \<Rightarrow> bool"
  isword :: "nat \<Rightarrow> bool"
  isdigit :: "nat \<Rightarrow> bool"
  lower :: "pystr \<Rightarrow> pystr"
  word_tokenize :: "pystr \<Rightarrow> pystr list"
  russian_stop :: "pystr set"
  py_float :: "pystr \<Rightarrow> error + real"
  strptime :: "pystr \<Rightarrow> error + date"
  compound :: "pystr \<Rightarrow> real"

text \<open>\<open>s.strip()\<close>: leading and trailing whitespace removed.\<close>

definition py_strip :: "(nat \<Rightarrow> bool) \<Rightarrow> pystr \<Rightarrow> pystr" where
  "py_strip sp s = rev (dropWhile sp (rev (dropWhile sp s)))"

text \<open>
  \<open>s.split()\<close>: the maximal runs of characters that are not separators (whitespace, for
  Python's \<open>split\<close> without argument).
\<close>

fun split_from :: "(nat \<Rightarrow> bool) \<Rightarrow> pystr \<Rightarrow> pystr \<Rightarrow> pystr list" where
  "split_from sp w [] = (if w = [] then [] else [w])"
| "split_from sp w (c # cs) =
     (if sp c then (if w = [] then split_from sp [] cs else w # split_from sp [] cs)
      else split_from sp (w @ [c]) cs)"

definition py_split :: "(nat \<Rightarrow> bool) \<Rightarrow> pystr \<Rightarrow> pystr list" where
  "py_split sp s = split_from sp [] s"

section \<open>The table of reviews\<close>

text \<open>
  One row of the table, as \<open>read_csv\<close> has parsed it. A cell of a text column is
  \<open>Some s\<close> where the frame holds the string \<open>s\<close> and \<open>None\<close> where it holds a
  missing value (NaN); the collector itself always writes a string there, and the empty
  string is read back as a missing value.
\<close>

record review =
  movie_id :: pystr
  review_text :: "pystr option"
  rating :: "real option"
  review_date :: "date option"
  author :: "pystr option"

section \<open>Cleaner\<close>

text \<open>
  \<open>df.drop_duplicates(subset=["review_text", "author"], inplace=True)\<close>: the rows are
  scanned in order and a row is kept when its key has not been seen before (pandas keeps
  the first occurrence, and two missing values count as equal).
\<close>

definition subset_key :: "review \<Rightarrow> pystr option \<times> pystr option" where
  "subset_key r = (review_text r, author r)"

fun drop_duplicates_from :: "(pystr option \<times> pystr option) list \<Rightarrow> review list \<Rightarrow> review list" where
  "drop_duplicates_from seen [] = []"
| "drop_duplicates_from seen (r # rs) =
     (if subset_key r \<in> set seen then drop_duplicates_from seen rs
      else r # drop_duplicates_from (subset_key r # seen) rs)"

definition drop_duplicates :: "review list \<Rightarrow> review list" where
  "drop_duplicates rows = drop_duplicates_from [] rows"

text \<open>
  \<open>df["review_text"].notna() & (df["review_text"].str.strip() != "")\<close>: on a missing
  value \<open>.str.strip()\<close> is missing again and the comparison \<open>!= ""\<close> is true there, so
  the first conjunct decides.
\<close>

definition text_mask :: "library \<Rightarrow> review \<Rightarrow> bool" where
  "text_mask L r =
     (review_text r \<noteq> None \<and>
      (case review_text r of None \<Rightarrow> True | Some s \<Rightarrow> py_strip (isspace L) s \<noteq> []))"

text \<open>
  The accessor \<open>.str\<close> works on a column of strings (missing values among them, or no
  row at all). When the frame has rows and every \<open>review_text\<close> cell is missing,
  \<open>read_csv\<close> has typed the column as a column of floats, and \<open>.str\<close> raises
  \<open>AttributeError\<close> before any mask is computed. \<open>drop_duplicates\<close> keeps the type
  of the column, and the deduplicated frame has rows that are all missing exactly when
  the frame read has (lemma \<open>str_accessor_raises_drop_duplicates\<close>).
\<close>

definition str_accessor_raises :: "review list \<Rightarrow> bool" where
  "str_accessor_raises rows = (rows \<noteq> [] \<and> list_all (\<lambda>r. review_text r = None) rows)"

text \<open>
  \<open>df = df[mask]\<close>: the rows whose mask is true, in order; \<open>Inl\<close> when computing the
  mask raises.
\<close>

definition drop_empty_text :: "library \<Rightarrow> review list \<Rightarrow> error + review list" where
  "drop_empty_text L rows =
     (if str_accessor_raises rows then Inl AttributeError
      else Inr (map fst (filter snd (zip rows (map (text_mask L) rows)))))"

definition clean :: "library \<Rightarrow> review list \<Rightarrow> error + review list" where
  "clean L rows = drop_empty_text L (drop_duplicates rows)"

text \<open>Vocabulary of the properties: a blank cell, and the number of rows with a key.\<close>

fun blank_text :: "library \<Rightarrow> pystr option \<Rightarrow> bool" where
  "blank_text L None = True"
| "blank_text L (Some s) = list_all (isspace L) s"


section \<open>Tokenizer\<close>

text \<open>ASCII literals of the source, as code points.\<close>

abbreviation ascii :: "string \<Rightarrow> pystr" where
  "ascii s \<equiv> map of_char s"

text \<open>
  \<open>punct_pattern.sub(" ", text)\<close> with \<open>punct_pattern = re.compile(r"[^\w\s]", flags=re.U)\<close>:
  every character that is neither a word character nor whitespace becomes one space.
\<close>

definition sub_punct :: "library \<Rightarrow> pystr \<Rightarrow> pystr" where
  "sub_punct L text = map (\<lambda>c. if \<not> isword L c \<and> \<not> isspace L c then SPACE else c) text"

text \<open>\<open>re.sub(r"\d+", " ", text)\<close>: every maximal run of digits becomes one space.\<close>

function sub_digits :: "library \<Rightarrow> pystr \<Rightarrow> pystr" where
  "sub_digits L [] = []"
| "sub_digits L (c # cs) =
     (if isdigit L c then SPACE # sub_digits L (dropWhile (isdigit L) cs)
      else c # sub_digits L cs)"
  by pat_completeness auto
termination
  by (relation "measure (\<lambda>(L, s). length s)") (auto simp: less_Suc_eq_le length_dropWhile_le)

text \<open>\<open>" ".join(tokens)\<close>.\<close>

fun join_sp :: "pystr list \<Rightarrow> pystr" where
  "join_sp [] = []"
| "join_sp [t] = t"
| "join_sp (t # ts) = t @ SPACE # join_sp ts"

text \<open>
  \<open>preprocess_text\<close>, with the list \<open>tokens\<close> it joins as a function of its own:
  steps 1 to 5 of the source, in order.
\<close>

definition preprocess_tokens :: "library \<Rightarrow> pystr \<Rightarrow> pystr list" where
  "preprocess_tokens L text =
     filter (\<lambda>tok. tok \<notin> russian_stop L \<and> length tok > 2)
       (word_tokenize L (sub_digits L (sub_punct L (lower L text))))"

definition preprocess_text :: "library \<Rightarrow> pystr \<Rightarrow> pystr" where
  "preprocess_text L text = join_sp (preprocess_tokens L text)"

text \<open>
  The column \<open>clean_text\<close>: \<open>df["review_text"].fillna("").apply(preprocess_text)\<close>.
\<close>

definition clean_text :: "library \<Rightarrow> review \<Rightarrow> pystr" where
  "clean_text L r = preprocess_text L (case review_text r of None \<Rightarrow> [] | Some s \<Rightarrow> s)"

text \<open>
  The tokens of a returned string: its maximal runs of characters other than the space
  that \<open>join\<close> puts between tokens.
\<close>

definition tokens_of :: "pystr \<Rightarrow> pystr list" where
  "tokens_of s = py_split (\<lambda>c. c = SPACE) s"

text \<open>The text of the end-to-end example: \<open>Otlichnyj fil'm! 10/10\<close> in Cyrillic letters.\<close>

definition example_text :: pystr where
  "example_text =
     [1054, 1090, 1083, 1080, 1095, 1085, 1099, 1081, 32,
      1092, 1080, 1083, 1100, 1084, 33, 32, 49, 48, 47, 49, 48]"

section \<open>Sentiment score\<close>

text \<open>
  \<open>get_sentiment_score\<close>: \<open>not text\<close> holds for \<open>None\<close> and for the empty string;
  \<open>str(text).strip() == ""\<close> holds for a string of whitespace.
\<close>

definition get_sentiment_score :: "library \<Rightarrow> pystr option \<Rightarrow> real option" where
  "get_sentiment_score L text =
     (case text of
        None \<Rightarrow> None
      | Some s \<Rightarrow>
          if s = [] \<or> py_strip (isspace L) s = [] then None
          else Some (compound L s))"

text \<open>The column \<open>sentiment_score\<close>: \<open>df["clean_text"].apply(get_sentiment_score)\<close>.\<close>

definition sentiment_score :: "library \<Rightarrow> review \<Rightarrow> real option" where
  "sentiment_score L r = get_sentiment_score L (Some (clean_text L r))"

section \<open>Collector\<close>

text \<open>
  A review block of a page, as the four \<open>block.find(...)\<close> calls see it: for each
  selector, \<open>None\<close> when no element matches and otherwise the element's
  \<open>get_text(strip=True)\<close>.
\<close>

record block =
  text_el :: "pystr option"
  rating_el :: "pystr option"
  date_el :: "pystr option"
  author_el :: "pystr option"

text \<open>
  The site: for a URL, the result of \<open>requests.get\<close> followed by
  \<open>soup.find_all("div", class_="reviewItem")\<close>; \<open>Inl\<close> when the request raises.
\<close>

type_synonym web = "pystr \<Rightarrow> error + block list"

text \<open>The body of the loop over the blocks of one page, up to \<open>reviews.append\<close>.\<close>

definition extract_review :: "library \<Rightarrow> pystr \<Rightarrow> block \<Rightarrow> review" where
  "extract_review L mid b =
     (let review_text = (case text_el b of Some t \<Rightarrow> t | None \<Rightarrow> []);
          rating = (case rating_el b of
                      Some s \<Rightarrow> (case py_float L s of Inr v \<Rightarrow> Some v | Inl e \<Rightarrow> None)
                    | None \<Rightarrow> None);
          date_str = (case date_el b of Some d \<Rightarrow> d | None \<Rightarrow> []);
          review_date = (case strptime L date_str of Inr d \<Rightarrow> Some d | Inl e \<Rightarrow> None);
          author = (case author_el b of Some a \<Rightarrow> a | None \<Rightarrow> [])
      in \<lparr>movie_id = mid, review_text = Some review_text, rating = rating,
          review_date = review_date, author = Some author\<rparr>)"

fun append_blocks :: "library \<Rightarrow> pystr \<Rightarrow> block list \<Rightarrow> review list \<Rightarrow> review list" where
  "append_blocks L mid [] reviews = reviews"
| "append_blocks L mid (b # bs) reviews =
     append_blocks L mid bs (reviews @ [extract_review L mid b])"

text \<open>\<open>movie_url.rstrip("/").split("/")[-1]\<close>.\<close>

definition movie_id_of :: "pystr \<Rightarrow> pystr" where
  "movie_id_of movie_url =
     rev (takeWhile (\<lambda>c. c \<noteq> 47) (dropWhile (\<lambda>c. c = 47) (rev movie_url)))"

text \<open>\<open>str\<close> of an integer, for the f-string of the page URL.\<close>

function digits_of :: "nat \<Rightarrow> pystr" where
  "digits_of n = (if n < 10 then [48 + n] else digits_of (n div 10) @ [48 + n mod 10])"
  by pat_completeness auto
termination
  by (relation "measure id") auto

definition py_str_int :: "int \<Rightarrow> pystr" where
  "py_str_int i = (if i < 0 then 45 # digits_of (nat (- i)) else digits_of (nat i))"

definition reviews_page_url :: "pystr \<Rightarrow> int \<Rightarrow> pystr" where
  "reviews_page_url movie_url page_num = movie_url @ ascii ''reviews/?page='' @ py_str_int page_num"

text \<open>
  The loop over \<open>range(1, max_pages + 1)\<close>. The state is the list \<open>reviews\<close> and the list
  of the URLs requested so far; the result is that list and either the exception that
  escaped or the list returned.
\<close>

fun scrape_pages ::
  "web \<Rightarrow> library \<Rightarrow> pystr \<Rightarrow> pystr \<Rightarrow> int list \<Rightarrow> review list \<Rightarrow> pystr list
     \<Rightarrow> pystr list \<times> (error + review list)" where
  "scrape_pages W L movie_url mid [] reviews requested = (requested, Inr reviews)"
| "scrape_pages W L movie_url mid (page_num # rest) reviews requested =
     (let url = reviews_page_url movie_url page_num;
          requested' = requested @ [url]
      in case W url of
           Inl e \<Rightarrow> (requested', Inl e)
         | Inr review_blocks \<Rightarrow>
             if review_blocks = [] then (requested', Inr reviews)
             else scrape_pages W L movie_url mid rest
                    (append_blocks L mid review_blocks reviews) requested')"

definition scrape_reviews_for_movie ::
  "web \<Rightarrow> library \<Rightarrow> pystr \<Rightarrow> int \<Rightarrow> pystr list \<times> (error + review list)" where
  "scrape_reviews_for_movie W L movie_url max_pages =
     scrape_pages W L movie_url (movie_id_of movie_url) [1..max_pages] [] []"

text \<open>
  Vocabulary of the properties of the collector: the blocks of page \<open>p\<close> of a movie, whether
  the page was fetched and has blocks, the rows extracted from it, and the rows extracted
  from the blocks found at a URL.
\<close>

definition page_blocks :: "web \<Rightarrow> pystr \<Rightarrow> int \<Rightarrow> block list" where
  "page_blocks W movie_url p =
     (case W (reviews_page_url movie_url p) of Inr bs \<Rightarrow> bs | Inl e \<Rightarrow> [])"

definition good_page :: "web \<Rightarrow> pystr \<Rightarrow> int \<Rightarrow> bool" where
  "good_page W movie_url p =
     (case W (reviews_page_url movie_url p) of Inr bs \<Rightarrow> bs \<noteq> [] | Inl e \<Rightarrow> False)"

definition page_reviews :: "web \<Rightarrow> library \<Rightarrow> pystr \<Rightarrow> int \<Rightarrow> review list" where
  "page_reviews W L movie_url p =
     map (extract_review L (movie_id_of movie_url)) (page_blocks W movie_url p)"

definition url_reviews :: "web \<Rightarrow> library \<Rightarrow> pystr \<Rightarrow> pystr \<Rightarrow> review list" where
  "url_reviews W L mid url =
     map (extract_review L mid) (case W url of Inr bs \<Rightarrow> bs | Inl e \<Rightarrow> [])"

section \<open>A concrete library for ASCII and Russian text\<close>

text \<open>
  The theorems below hold for every \<open>library\<close>. To evaluate the notebook's functions on
  concrete rows and texts, \<open>sample_lib\<close> fixes one: Python's whitespace set, the letters,
  digits and lowercasing of ASCII and of the Russian alphabet, whitespace splitting as the
  tokenizer (what \<open>word_tokenize\<close> does on Russian text once punctuation is gone), a few
  entries of the Russian stopword list, \<open>float\<close> on unsigned decimal integers,
  \<open>strptime\<close> on dates written \<open>dd.mm.yyyy\<close>, and the score \<open>0.0\<close> that an English
  lexicon gives a text with no word of the lexicon. It agrees with the Python libraries on
  the inputs used in this theory; it is not a model of them on all inputs.
\<close>

definition sample_isspace :: "nat \<Rightarrow> bool" where
  "sample_isspace c =
     ((9 \<le> c \<and> c \<le> 13) \<or> (28 \<le> c \<and> c \<le> 32) \<or> c = 133 \<or> c = 160 \<or> c = 5760 \<or>
      (8192 \<le> c \<and> c \<le> 8202) \<or> c = 8232 \<or> c = 8233 \<or> c = 8239 \<or> c = 8287 \<or> c = 12288)"

definition sample_isdigit :: "nat \<Rightarrow> bool" where
  "sample_isdigit c = (48 \<le> c \<and> c \<le> 57)"

definition sample_isword :: "nat \<Rightarrow> bool" where
  "sample_isword c =
     (sample_isdigit c \<or> (65 \<le> c \<and> c \<le> 90) \<or> c = 95 \<or> (97 \<le> c \<and> c \<le> 122) \<or>
      c = 1025 \<or> (1040 \<le> c \<and> c \<le> 1103) \<or> c = 1105)"

definition sample_lower_char :: "nat \<Rightarrow> nat" where
  "sample_lower_char c =
     (if (65 \<le> c \<and> c \<le> 90) \<or> (1040 \<le> c \<and> c \<le> 1071) then c + 32
      else if c = 1025 then 1105 else c)"

text \<open>
  Stopwords of the sample: \<open>i\<close>, \<open>v\<close>, \<open>ne\<close>, \<open>na\<close>, \<open>chto\<close>, \<open>kak\<close>, \<open>dlya\<close>, \<open>byl\<close>
  in Cyrillic letters.
\<close>

definition sample_stop :: "pystr list" where
  "sample_stop =
     [[1080], [1074], [1085, 1077], [1085, 1072], [1095, 1090, 1086], [1082, 1072, 1082],
      [1076, 1083, 1103], [1073, 1099, 1083]]"

definition sample_float :: "pystr \<Rightarrow> error + real" where
  "sample_float s =
     (if s \<noteq> [] \<and> list_all sample_isdigit s
      then Inr (real (foldl (\<lambda>a c. 10 * a + (c - 48)) 0 s))
      else Inl ValueError)"

definition days_in_month :: "nat \<Rightarrow> nat \<Rightarrow> nat" where
  "days_in_month y m =
     (if m = 2 then (if y mod 4 = 0 \<and> (y mod 100 \<noteq> 0 \<or> y mod 400 = 0) then 29 else 28)
      else if m = 4 \<or> m = 6 \<or> m = 9 \<or> m = 11 then 30 else 31)"

definition sample_strptime :: "pystr \<Rightarrow> error + date" where
  "sample_strptime s =
     (case s of
        [d1, d0, p, m1, m0, q, y3, y2, y1, y0] \<Rightarrow>
          (let d = 10 * (d1 - 48) + (d0 - 48);
               m = 10 * (m1 - 48) + (m0 - 48);
               y = 1000 * (y3 - 48) + 100 * (y2 - 48) + 10 * (y1 - 48) + (y0 - 48)
           in if list_all sample_isdigit [d1, d0, m1, m0, y3, y2, y1, y0] \<and> p = 46 \<and> q = 46 \<and>
                 1 \<le> y \<and> 1 \<le> m \<and> m \<le> 12 \<and> 1 \<le> d \<and> d \<le> days_in_month y m
              then Inr (Date d m y) else Inl ValueError)
      | _ \<Rightarrow> Inl ValueError)"

definition sample_lib :: library where
  "sample_lib =
     \<lparr>isspace = sample_isspace, isword = sample_isword, isdigit = sample_isdigit,
      lower = map sample_lower_char, word_tokenize = py_split sample_isspace,
      russian_stop = set sample_stop, py_float = sample_float, strptime = sample_strptime,
      compound = (\<lambda>text. 0)\<rparr>"

text \<open>
  A site for concrete runs of the collector: a movie with two blocks on page 1, one on
  page 2 and none from page 3 on. The second block has the rating text \<open>11\<close> and a date
  text that is no date; the third has a rating text that is no number.
\<close>

definition sample_movie_url :: pystr where
  "sample_movie_url = ascii ''https://www.kinopoisk.ru/film/123/''"

definition block_a :: block where
  "block_a = \<lparr>text_el = Some (ascii ''Great film''), rating_el = Some (ascii ''9''),
     date_el = Some (ascii ''05.03.2023''), author_el = Some (ascii ''ann'')\<rparr>"

definition block_b :: block where
  "block_b = \<lparr>text_el = Some (ascii ''So so''), rating_el = Some (ascii ''11''),
     date_el = Some (ascii ''soon''), author_el = None\<rparr>"

definition block_c :: block where
  "block_c = \<lparr>text_el = None, rating_el = Some (ascii ''n/a''),
     date_el = None, author_el = Some (ascii ''bob'')\<rparr>"

definition sample_web :: web where
  "sample_web url =
     (if url = reviews_page_url sample_movie_url 1 then Inr [block_a, block_b]
      else if url = reviews_page_url sample_movie_url 2 then Inr [block_c]
      else Inr [])"

text \<open>
  Rows for concrete runs of the cleaner: a valid row, a second row with the same text and
  author, a row whose text is blank, and two rows by one author whose text is missing.
\<close>

definition valid_row :: review where
  "valid_row =
     \<lparr>movie_id = ascii ''1'', review_text = Some (ascii ''Great film''), rating = Some 9,
      review_date = Some (Date 5 3 2023), author = Some (ascii ''ann'')\<rparr>"


definition blank_row :: review where
  "blank_row =
     \<lparr>movie_id = ascii ''2'', review_text = Some (ascii ''  ''), rating = None,
      review_date = None, author = Some (ascii ''bob'')\<rparr>"

definition missing_row :: "real option \<Rightarrow> review" where
  "missing_row v =
     \<lparr>movie_id = ascii ''3'', review_text = None, rating = v,
      review_date = None, author = Some (ascii ''eve'')\<rparr>"

text \<open>
  A row that survives cleaning but whose text holds only digits, punctuation and
  stopwords: \<open>10/10 i ne\<close>, the two words in Cyrillic letters.
\<close>

definition digits_row :: review where
  "digits_row =
     \<lparr>movie_id = ascii ''4'', review_text = Some ([49, 48, 47, 49, 48, 32, 1080, 32, 1085, 1077]),
      rating = Some 10, review_date = None, author = Some (ascii ''kim'')\<rparr>"

section \<open>Lemmas on the cleaner\<close>

lemma py_strip_empty_iff: "py_strip sp s = [] \<longleftrightarrow> list_all sp s"
proof -
  have "(\<forall>c\<in>set (dropWhile sp s). sp c) \<longleftrightarrow> dropWhile sp s = []"
  proof (cases "dropWhile sp s")
    case Nil
    then show ?thesis by (simp only: list.set ball_empty simp_thms)
  next
    case (Cons c cs)
    then have "\<not> sp c"
      using hd_dropWhile [of sp s] by simp
    with Cons show ?thesis by auto
  qed
  then show ?thesis
    by (simp add: py_strip_def dropWhile_eq_Nil_conv list_all_iff)
qed

lemma text_mask_iff: "text_mask L r \<longleftrightarrow> \<not> blank_text L (review_text r)"
  by (cases "review_text r") (simp_all add: text_mask_def py_strip_empty_iff)

lemma mask_select_filter:
  "map fst (filter snd (zip rows (map (text_mask L) rows))) = filter (text_mask L) rows"
  by (induction rows) simp_all

lemma drop_empty_text_filter:
  "drop_empty_text L rows =
     (if str_accessor_raises rows then Inl AttributeError else Inr (filter (text_mask L) rows))"
  by (simp add: drop_empty_text_def mask_select_filter)




lemma keys_of_drop_duplicates_from:
  "subset_key ` set (drop_duplicates_from seen rows) = subset_key ` set rows - set seen"
  by (induction rows arbitrary: seen) auto

lemma set_drop_duplicates_from: "set (drop_duplicates_from seen rows) \<subseteq> set rows"
  by (induction rows arbitrary: seen) auto

lemma str_accessor_raises_drop_duplicates:
  "str_accessor_raises (drop_duplicates rows) \<longleftrightarrow> str_accessor_raises rows"
proof -
  have keys: "subset_key ` set (drop_duplicates rows) = subset_key ` set rows"
    using keys_of_drop_duplicates_from [of "[]" rows] by (simp add: drop_duplicates_def)
  have sub: "set (drop_duplicates rows) \<subseteq> set rows"
    using set_drop_duplicates_from [of "[]" rows] by (simp add: drop_duplicates_def)
  have texts: "review_text ` set (drop_duplicates rows) = review_text ` set rows"
  proof -
    have "review_text ` set xs = fst ` subset_key ` set xs" for xs :: "review list"
      by (force simp: subset_key_def image_iff)
    then show ?thesis
      using keys by simp
  qed
  have "drop_duplicates rows = [] \<longleftrightarrow> rows = []"
    using keys by (metis image_is_empty set_empty)
  moreover have "(\<forall>r\<in>set (drop_duplicates rows). review_text r = None) \<longleftrightarrow>
      (\<forall>r\<in>set rows. review_text r = None)"
    using texts by (metis (no_types, lifting) image_iff)
  ultimately show ?thesis
    by (simp add: str_accessor_raises_def list_all_iff)
qed

lemma clean_cases:
  "clean L rows =
     (if str_accessor_raises rows then Inl AttributeError
      else Inr (filter (text_mask L) (drop_duplicates rows)))"
  by (simp add: clean_def drop_empty_text_filter str_accessor_raises_drop_duplicates)







section \<open>Properties of the cleaner\<close>




text \<open>
  C2, at the input where the code departs from it: on a table whose only row has a missing
  \<open>review_text\<close> the cleaner raises \<open>AttributeError\<close> and produces no cleaned table,
  where the claim has the row absent from the cleaned table. On a table that also holds
  a row with text, the rows with missing or whitespace-only text are dropped and the row
  with text is kept.
\<close>

theorem clean_raises_on_missing_text:
  "clean sample_lib [missing_row None] = Inl AttributeError \<and>
   clean sample_lib [valid_row, blank_row, missing_row None] = Inr [valid_row]"
  by (simp add: missing_row_def valid_row_def blank_row_def subset_key_def clean_def
      drop_duplicates_def drop_empty_text_def str_accessor_raises_def text_mask_def
      py_strip_def sample_lib_def sample_isspace_def)

text \<open>
  Where the cleaner returns, it does what C2 says: it returns exactly when the table is
  empty or some \<open>review_text\<close> is not missing, and the table returned holds, in order,
  the rows of the deduplicated table whose text is not blank.
\<close>

lemma clean_returns_iff:
  "(\<exists>out. clean L rows = Inr out) \<longleftrightarrow> rows = [] \<or> (\<exists>r\<in>set rows. review_text r \<noteq> None)"
  by (auto simp: clean_cases str_accessor_raises_def list_all_iff)

lemma clean_drops_blank_text:
  assumes "clean L rows = Inr out"
  shows "out = filter (\<lambda>r. \<not> blank_text L (review_text r)) (drop_duplicates rows)"
    and "\<forall>r\<in>set out. \<not> blank_text L (review_text r)"
proof -
  have "text_mask L = (\<lambda>r. \<not> blank_text L (review_text r))"
    by (simp add: fun_eq_iff text_mask_iff)
  with assms show "out = filter (\<lambda>r. \<not> blank_text L (review_text r)) (drop_duplicates rows)"
    by (simp add: clean_cases split: if_splits)
  then show "\<forall>r\<in>set out. \<not> blank_text L (review_text r)"
    by simp
qed

section \<open>Properties of the tokenizer\<close>

subsection \<open>Splitting and joining\<close>

lemma split_from_append:
  "\<forall>c\<in>set t. \<not> sp c \<Longrightarrow> split_from sp w (t @ rest) = split_from sp (w @ t) rest"
  by (induction t arbitrary: w) simp_all

lemma py_split_word:
  assumes "t \<noteq> []" and "\<forall>c\<in>set t. \<not> sp c"
  shows "py_split sp t = [t]"
  using assms split_from_append [of t sp "[]" "[]"] by (simp add: py_split_def)

lemma py_split_join_sp:
  assumes "sp SPACE" and "\<forall>t\<in>set ts. t \<noteq> [] \<and> (\<forall>c\<in>set t. \<not> sp c)"
  shows "py_split sp (join_sp ts) = ts"
  using assms(2)
proof (induction ts rule: join_sp.induct)
  case 1
  then show ?case by (simp add: py_split_def)
next
  case (2 t)
  then show ?case by (simp add: py_split_word)
next
  case (3 t u ts)
  then have "split_from sp [] (t @ SPACE # join_sp (u # ts)) =
               split_from sp t (SPACE # join_sp (u # ts))"
    using split_from_append [of t sp "[]"] by simp
  also have "\<dots> = t # split_from sp [] (join_sp (u # ts))"
    using 3 assms(1) by simp
  finally show ?case
    using 3 by (simp add: py_split_def)
qed

lemma set_split_from:
  "tok \<in> set (split_from sp w s) \<Longrightarrow>
     tok \<noteq> [] \<and> (\<forall>c\<in>set tok. c \<in> set w \<or> (c \<in> set s \<and> \<not> sp c))"
proof (induction s arbitrary: w)
  case Nil
  then show ?case by (auto split: if_splits)
next
  case (Cons a s)
  show ?case
  proof (cases "sp a")
    case True
    with Cons.prems have "tok = w \<and> w \<noteq> [] \<or> tok \<in> set (split_from sp [] s)"
      by (auto split: if_splits)
    then show ?thesis
      using Cons.IH [of "[]"] by auto
  next
    case False
    with Cons.prems have "tok \<in> set (split_from sp (w @ [a]) s)"
      by simp
    then show ?thesis
      using Cons.IH [of "w @ [a]"] False by auto
  qed
qed

lemma set_py_split:
  "tok \<in> set (py_split sp s) \<Longrightarrow> tok \<noteq> [] \<and> (\<forall>c\<in>set tok. c \<in> set s \<and> \<not> sp c)"
  using set_split_from [of tok sp "[]" s] by (simp add: py_split_def)

lemma tokens_of_join_sp:
  assumes "\<forall>t\<in>set ts. t \<noteq> [] \<and> SPACE \<notin> set t"
  shows "tokens_of (join_sp ts) = ts"
  unfolding tokens_of_def
  by (rule py_split_join_sp) (use assms in auto)

lemma preprocess_tokens_filtered:
  "tok \<in> set (preprocess_tokens L text) \<Longrightarrow> 3 \<le> length tok \<and> tok \<notin> russian_stop L"
  by (auto simp: preprocess_tokens_def)

lemma preprocess_tokens_subset:
  "set (preprocess_tokens L text) \<subseteq>
     set (word_tokenize L (sub_digits L (sub_punct L (lower L text))))"
  by (auto simp: preprocess_tokens_def)

subsection \<open>The sample library\<close>

lemma sample_isspace_SPACE: "sample_isspace SPACE"
  by (simp add: sample_isspace_def)

lemmas sample_defs =
  sample_lib_def sample_isword_def sample_isspace_def sample_isdigit_def
  sample_lower_char_def sample_stop_def

lemma sample_tokens_no_space:
  "\<forall>x. \<forall>tok \<in> set (word_tokenize sample_lib x). SPACE \<notin> set tok"
  using set_py_split [of _ sample_isspace] sample_isspace_SPACE
  by (auto simp: sample_lib_def)

lemma example_tokens:
  "preprocess_tokens sample_lib example_text =
     [[1086, 1090, 1083, 1080, 1095, 1085, 1099, 1081], [1092, 1080, 1083, 1100, 1084]]"
  by (simp add: preprocess_tokens_def example_text_def sub_punct_def py_split_def sample_defs)

subsection \<open>Token filter\<close>

text \<open>
  C4: for every input string, every token in the list that \<open>preprocess_text\<close> joins has
  length at least 3 and is not a stopword; when the tokenizer's tokens contain no space
  (as those of a word tokenizer do), the tokens of the returned string are exactly that
  list; and for the text of the end-to-end example the tokens exclude \<open>10\<close> (and, by the
  first part, every word of one or two letters).
\<close>

theorem preprocess_text_token_filter:
  "(\<forall>tok \<in> set (preprocess_tokens L text). 3 \<le> length tok \<and> tok \<notin> russian_stop L) \<and>
   ((\<forall>x. \<forall>tok \<in> set (word_tokenize L x). SPACE \<notin> set tok) \<longrightarrow>
      tokens_of (preprocess_text L text) = preprocess_tokens L text) \<and>
   ascii ''10'' \<notin> set (preprocess_tokens L example_text)"
proof -
  have a: "\<forall>tok \<in> set (preprocess_tokens L text). 3 \<le> length tok \<and> tok \<notin> russian_stop L"
    using preprocess_tokens_filtered by blast
  have b: "tokens_of (preprocess_text L text) = preprocess_tokens L text"
    if h: "\<forall>x. \<forall>tok \<in> set (word_tokenize L x). SPACE \<notin> set tok"
  proof -
    have "\<forall>t\<in>set (preprocess_tokens L text). t \<noteq> [] \<and> SPACE \<notin> set t"
    proof
      fix t
      assume t: "t \<in> set (preprocess_tokens L text)"
      then have "3 \<le> length t"
        using preprocess_tokens_filtered by blast
      moreover have "SPACE \<notin> set t"
        using t h preprocess_tokens_subset by blast
      ultimately show "t \<noteq> [] \<and> SPACE \<notin> set t"
        by auto
    qed
    then show ?thesis
      by (simp add: preprocess_text_def tokens_of_join_sp)
  qed
  have c: "ascii ''10'' \<notin> set (preprocess_tokens L example_text)"
    using preprocess_tokens_filtered [of "ascii ''10''" L example_text] by auto
  show ?thesis
    by (intro conjI impI a c) (erule b)
qed

theorem preprocess_text_token_filter_witness:
  "preprocess_text sample_lib example_text =
     [1086, 1090, 1083, 1080, 1095, 1085, 1099, 1081, 32, 1092, 1080, 1083, 1100, 1084] \<and>
   tokens_of (preprocess_text sample_lib example_text) =
     [[1086, 1090, 1083, 1080, 1095, 1085, 1099, 1081], [1092, 1080, 1083, 1100, 1084]] \<and>
   ascii ''10'' \<notin> set (tokens_of (preprocess_text sample_lib example_text)) \<and>
   list_all (\<lambda>tok. 3 \<le> length tok \<and> tok \<notin> russian_stop sample_lib)
     (tokens_of (preprocess_text sample_lib example_text))"
proof -
  note th = preprocess_text_token_filter [of sample_lib example_text]
  from th sample_tokens_no_space
  have toks: "tokens_of (preprocess_text sample_lib example_text) =
      preprocess_tokens sample_lib example_text"
    by blast
  from th have "list_all (\<lambda>tok. 3 \<le> length tok \<and> tok \<notin> russian_stop sample_lib)
      (preprocess_tokens sample_lib example_text)"
    unfolding list_all_iff by blast
  moreover from th have "ascii ''10'' \<notin> set (preprocess_tokens sample_lib example_text)"
    by blast
  moreover have "preprocess_text sample_lib example_text =
     [1086, 1090, 1083, 1080, 1095, 1085, 1099, 1081, 32, 1092, 1080, 1083, 1100, 1084]"
    by (simp add: preprocess_text_def example_tokens)
  ultimately show ?thesis
    unfolding toks using example_tokens by simp
qed

subsection \<open>Idempotence\<close>

lemma set_sub_punct:
  "c \<in> set (sub_punct L s) \<Longrightarrow> c = SPACE \<or> (c \<in> set s \<and> (isword L c \<or> isspace L c))"
  by (auto simp: sub_punct_def split: if_splits)

lemma sub_punct_id:
  "\<forall>c\<in>set s. isword L c \<or> isspace L c \<or> c = SPACE \<Longrightarrow> sub_punct L s = s"
  unfolding sub_punct_def by (rule map_idI) auto

lemma set_sub_digits:
  "c \<in> set (sub_digits L s) \<Longrightarrow> c = SPACE \<or> (c \<in> set s \<and> \<not> isdigit L c)"
proof (induction L s rule: sub_digits.induct)
  case (1 L)
  then show ?case by simp
next
  case (2 L a cs)
  show ?case
  proof (cases "isdigit L a")
    case True
    with 2 have "c = SPACE \<or> (c \<in> set (dropWhile (isdigit L) cs) \<and> \<not> isdigit L c)"
      by auto
    then show ?thesis
      using set_dropWhileD [of c "isdigit L" cs] by auto
  next
    case False
    with 2 show ?thesis by auto
  qed
qed

lemma sub_digits_id: "\<forall>c\<in>set s. \<not> isdigit L c \<Longrightarrow> sub_digits L s = s"
  by (induction s) simp_all

lemma set_join_sp: "c \<in> set (join_sp ts) \<Longrightarrow> c = SPACE \<or> (\<exists>t\<in>set ts. c \<in> set t)"
  by (induction ts rule: join_sp.induct) auto

lemma concat_singletons: "\<forall>w\<in>set ws. f w = [w] \<Longrightarrow> concat (map f ws) = ws"
  by (induction ws) simp_all

lemma sample_lower_char_idem: "sample_lower_char (sample_lower_char c) = sample_lower_char c"
  by (simp add: sample_lower_char_def)

lemma sample_lower_out: "c \<in> set (lower sample_lib s) \<Longrightarrow> lower sample_lib [c] = [c]"
  by (auto simp: sample_lib_def sample_lower_char_idem)

lemma sample_lower_fixed: "\<forall>c\<in>set s. lower sample_lib [c] = [c] \<Longrightarrow> lower sample_lib s = s"
  by (simp add: sample_lib_def map_idI)

lemma sample_tokens_from_text:
  "tok \<in> set (word_tokenize sample_lib x) \<Longrightarrow>
     tok \<noteq> [] \<and> (\<forall>c\<in>set tok. c \<in> set x \<and> \<not> isspace sample_lib c)"
  using set_py_split [of tok sample_isspace x] by (simp add: sample_lib_def)

lemma sample_tokens_stable:
  "tok \<in> set (word_tokenize sample_lib x) \<Longrightarrow> word_tokenize sample_lib tok = [tok]"
  using set_py_split [of tok sample_isspace x] py_split_word [of tok sample_isspace]
  by (simp add: sample_lib_def)

lemma sample_word_by_word:
  assumes "\<forall>w\<in>set ws. w \<noteq> [] \<and> (\<forall>c\<in>set w. isword sample_lib c \<and> \<not> isspace sample_lib c)"
  shows "word_tokenize sample_lib (join_sp ws) = concat (map (word_tokenize sample_lib) ws)"
proof -
  from assms have ws: "\<forall>w\<in>set ws. w \<noteq> [] \<and> (\<forall>c\<in>set w. \<not> sample_isspace c)"
    by (simp add: sample_lib_def)
  then have "py_split sample_isspace (join_sp ws) = ws"
    using py_split_join_sp [of sample_isspace ws] sample_isspace_SPACE by blast
  moreover from ws have "concat (map (py_split sample_isspace) ws) = ws"
    by (intro concat_singletons ballI py_split_word) auto
  ultimately show ?thesis
    by (simp add: sample_lib_def)
qed

text \<open>
  C3: for every input string \<open>t\<close>, \<open>preprocess_text (preprocess_text t) = preprocess_text t\<close>,
  for every library whose functions behave as those of Python and of the tokenizer do:
  the characters \<open>str.lower\<close> returns are unchanged by it and a string of such characters
  is unchanged; the space is whitespace, is not a digit and is unchanged by \<open>str.lower\<close>;
  and on a text without punctuation the tokenizer returns non-empty pieces of the text
  without whitespace, leaves each of its own tokens alone, and treats space-separated
  words one by one.
\<close>

theorem preprocess_text_idempotent:
  assumes lower_out: "\<And>s c. c \<in> set (lower L s) \<Longrightarrow> lower L [c] = [c]"
    and lower_fixed: "\<And>s. \<forall>c\<in>set s. lower L [c] = [c] \<Longrightarrow> lower L s = s"
    and lower_space: "lower L [SPACE] = [SPACE]"
    and space_isspace: "isspace L SPACE"
    and space_not_digit: "\<not> isdigit L SPACE"
    and tokens_from_text: "\<And>x tok. \<forall>c\<in>set x. isword L c \<or> isspace L c \<Longrightarrow>
        tok \<in> set (word_tokenize L x) \<Longrightarrow>
        tok \<noteq> [] \<and> (\<forall>c\<in>set tok. c \<in> set x \<and> \<not> isspace L c)"
    and tokens_stable: "\<And>x tok. \<forall>c\<in>set x. isword L c \<or> isspace L c \<Longrightarrow>
        tok \<in> set (word_tokenize L x) \<Longrightarrow> word_tokenize L tok = [tok]"
    and word_by_word: "\<And>ws. \<forall>w\<in>set ws. w \<noteq> [] \<and> (\<forall>c\<in>set w. isword L c \<and> \<not> isspace L c) \<Longrightarrow>
        word_tokenize L (join_sp ws) = concat (map (word_tokenize L) ws)"
  shows "preprocess_text L (preprocess_text L t) = preprocess_text L t"
proof -
  define x where "x = sub_digits L (sub_punct L (lower L t))"
  define ts where "ts = preprocess_tokens L t"
  define y where "y = join_sp ts"
  have ts_filter: "ts = filter (\<lambda>tok. tok \<notin> russian_stop L \<and> length tok > 2) (word_tokenize L x)"
    by (simp add: ts_def x_def preprocess_tokens_def)
  have x_chars: "(isword L c \<or> isspace L c) \<and> \<not> isdigit L c \<and> lower L [c] = [c]"
    if "c \<in> set x" for c
  proof (cases "c = SPACE")
    case True
    then show ?thesis
      using lower_space space_isspace space_not_digit by simp
  next
    case False
    with that have c: "c \<in> set (sub_punct L (lower L t))" "\<not> isdigit L c"
      using set_sub_digits [of c L "sub_punct L (lower L t)"] by (auto simp: x_def)
    with False have "c \<in> set (lower L t)" "isword L c \<or> isspace L c"
      using set_sub_punct [of c L "lower L t"] by auto
    with c show ?thesis
      using lower_out by blast
  qed
  then have x_clean: "\<forall>c\<in>set x. isword L c \<or> isspace L c"
    by blast
  have toks: "tok \<noteq> [] \<and> (\<forall>c\<in>set tok. c \<in> set x \<and> \<not> isspace L c) \<and>
      word_tokenize L tok = [tok]"
    if "tok \<in> set ts" for tok
  proof -
    from that have "tok \<in> set (word_tokenize L x)"
      by (simp add: ts_filter)
    then show ?thesis
      using tokens_from_text [OF x_clean] tokens_stable [OF x_clean] by blast
  qed
  have y_chars: "(isword L c \<or> isspace L c) \<and> \<not> isdigit L c \<and> lower L [c] = [c]"
    if "c \<in> set y" for c
  proof -
    from that have "c = SPACE \<or> c \<in> set x"
      using set_join_sp [of c ts] toks by (auto simp: y_def)
    then show ?thesis
      using x_chars lower_space space_isspace space_not_digit by auto
  qed
  have "lower L y = y"
    using lower_fixed y_chars by blast
  moreover have "sub_punct L y = y"
    using sub_punct_id [of y L] y_chars by blast
  moreover have "sub_digits L y = y"
    using sub_digits_id [of y L] y_chars by blast
  moreover have "word_tokenize L y = ts"
  proof -
    have "\<forall>w\<in>set ts. w \<noteq> [] \<and> (\<forall>c\<in>set w. isword L c \<and> \<not> isspace L c)"
      using toks x_chars by blast
    then have "word_tokenize L y = concat (map (word_tokenize L) ts)"
      unfolding y_def by (rule word_by_word)
    also have "\<dots> = ts"
      using toks by (simp add: concat_singletons)
    finally show ?thesis .
  qed
  ultimately have "preprocess_tokens L y = ts"
    by (simp add: preprocess_tokens_def ts_filter)
  then show ?thesis
    by (simp add: preprocess_text_def y_def ts_def)
qed

theorem preprocess_text_idempotent_witness:
  "preprocess_text sample_lib (preprocess_text sample_lib example_text) =
     preprocess_text sample_lib example_text \<and>
   preprocess_text sample_lib example_text =
     [1086, 1090, 1083, 1080, 1095, 1085, 1099, 1081, 32, 1092, 1080, 1083, 1100, 1084]"
proof -
  have "preprocess_text sample_lib (preprocess_text sample_lib example_text) =
     preprocess_text sample_lib example_text"
  proof (rule preprocess_text_idempotent)
    show "lower sample_lib [SPACE] = [SPACE]"
      by (simp add: sample_lib_def sample_lower_char_def)
    show "isspace sample_lib SPACE"
      by (simp add: sample_lib_def sample_isspace_def)
    show "\<not> isdigit sample_lib SPACE"
      by (simp add: sample_lib_def sample_isdigit_def)
    show "lower sample_lib [c] = [c]" if "c \<in> set (lower sample_lib s)" for s c
      using that by (rule sample_lower_out)
    show "lower sample_lib s = s" if "\<forall>c\<in>set s. lower sample_lib [c] = [c]" for s
      using that by (rule sample_lower_fixed)
    show "tok \<noteq> [] \<and> (\<forall>c\<in>set tok. c \<in> set x \<and> \<not> isspace sample_lib c)"
      if "tok \<in> set (word_tokenize sample_lib x)" for x tok
      using that by (rule sample_tokens_from_text)
    show "word_tokenize sample_lib tok = [tok]"
      if "tok \<in> set (word_tokenize sample_lib x)" for x tok
      using that by (rule sample_tokens_stable)
    show "word_tokenize sample_lib (join_sp ws) = concat (map (word_tokenize sample_lib) ws)"
      if "\<forall>w\<in>set ws. w \<noteq> [] \<and> (\<forall>c\<in>set w. isword sample_lib c \<and> \<not> isspace sample_lib c)"
      for ws
      using that by (rule sample_word_by_word)
  qed
  moreover have "preprocess_text sample_lib example_text =
     [1086, 1090, 1083, 1080, 1095, 1085, 1099, 1081, 32, 1092, 1080, 1083, 1100, 1084]"
    by (simp add: preprocess_text_def example_tokens)
  ultimately show ?thesis
    by simp
qed

section \<open>Properties of the sentiment score\<close>

text \<open>The score, when there is one, is the analyzer's value, unchanged.\<close>

lemma get_sentiment_score_value:
  "get_sentiment_score L t = Some v \<Longrightarrow> \<exists>s. t = Some s \<and> v = compound L s"
  by (cases t) (auto simp: get_sentiment_score_def split: if_splits)

lemma get_sentiment_score_None_iff:
  "get_sentiment_score L t = None \<longleftrightarrow> blank_text L t"
  by (cases t) (auto simp: get_sentiment_score_def py_strip_empty_iff)

lemma join_sp_Nil_iff: "\<forall>t\<in>set ts. t \<noteq> [] \<Longrightarrow> join_sp ts = [] \<longleftrightarrow> ts = []"
  by (cases ts rule: join_sp.cases) auto

lemma clean_text_empty:
  "clean_text L r = [] \<longleftrightarrow>
     preprocess_tokens L (case review_text r of None \<Rightarrow> [] | Some s \<Rightarrow> s) = []"
proof -
  have "\<forall>t\<in>set (preprocess_tokens L x). t \<noteq> []" for x
    using preprocess_tokens_filtered [of "[]" L x] by auto
  then show ?thesis
    by (simp add: clean_text_def preprocess_text_def join_sp_Nil_iff)
qed

text \<open>
  C10: \<open>get_sentiment_score\<close> returns \<open>None\<close> exactly when its input is missing, empty
  or whitespace-only. Hence a row whose \<open>clean_text\<close> is empty has a null
  \<open>sentiment_score\<close>, and \<open>clean_text\<close> is empty exactly when the token filter keeps no
  token of the review, which happens to rows that survive cleaning.
\<close>

theorem sentiment_score_null_cases:
  "(get_sentiment_score L t = None \<longleftrightarrow> blank_text L t) \<and>
   (clean_text L r = [] \<longrightarrow> sentiment_score L r = None) \<and>
   (clean_text L r = [] \<longleftrightarrow>
      preprocess_tokens L (case review_text r of None \<Rightarrow> [] | Some s \<Rightarrow> s) = [])"
  using get_sentiment_score_None_iff [of L t] clean_text_empty [of L r]
  by (simp add: sentiment_score_def get_sentiment_score_def)

theorem sentiment_score_null_cases_witness:
  "\<not> blank_text sample_lib (review_text digits_row) \<and>
   clean sample_lib [digits_row] = Inr [digits_row] \<and>
   clean_text sample_lib digits_row = [] \<and>
   sentiment_score sample_lib digits_row = None"
proof -
  have nb: "\<not> blank_text sample_lib (review_text digits_row)"
    by (simp add: digits_row_def sample_defs)
  have cl: "clean sample_lib [digits_row] = Inr [digits_row]"
    using nb
    by (simp add: clean_def drop_duplicates_def drop_empty_text_filter text_mask_iff
        str_accessor_raises_def digits_row_def)
  have ct: "clean_text sample_lib digits_row = []"
    by (simp add: clean_text_def preprocess_text_def preprocess_tokens_def digits_row_def
        sub_punct_def py_split_def sample_defs)
  from sentiment_score_null_cases [of sample_lib None digits_row] ct
  have "sentiment_score sample_lib digits_row = None"
    by blast
  with nb cl ct show ?thesis
    by simp
qed

section \<open>Properties of the collector\<close>

lemma append_blocks_map:
  "append_blocks L mid bs reviews = reviews @ map (extract_review L mid) bs"
  by (induction bs arbitrary: reviews) simp_all

lemma scrape_pages_good_prefix:
  "\<forall>p\<in>set pre. good_page W u p \<Longrightarrow>
   scrape_pages W L u mid (pre @ rest) reviews req =
     scrape_pages W L u mid rest
       (reviews @ concat (map (\<lambda>p. map (extract_review L mid) (page_blocks W u p)) pre))
       (req @ map (reviews_page_url u) pre)"
proof (induction pre arbitrary: reviews req)
  case Nil
  then show ?case by simp
next
  case (Cons p pre)
  from Cons.prems obtain bs where bs: "W (reviews_page_url u p) = Inr bs" "bs \<noteq> []"
    by (auto simp: good_page_def split: sum.splits)
  from Cons.prems have rest: "\<forall>q\<in>set pre. good_page W u q"
    by simp
  show ?case
    using bs Cons.IH [OF rest] by (simp add: page_blocks_def append_blocks_map)
qed

lemma scrape_pages_length:
  "length (fst (scrape_pages W L u mid ps reviews req)) \<le> length req + length ps"
proof (induction ps arbitrary: reviews req)
  case Nil
  then show ?case by simp
next
  case (Cons p ps)
  show ?case
  proof (cases "W (reviews_page_url u p)")
    case (Inl e)
    then show ?thesis by simp
  next
    case (Inr bs)
    then show ?thesis
      using Cons.IH [of "append_blocks L mid bs reviews" "req @ [reviews_page_url u p]"]
      by (cases "bs = []") simp_all
  qed
qed


lemma rating_extract_review:
  "rating (extract_review L mid b) = Some v \<longleftrightarrow>
     (\<exists>s. rating_el b = Some s \<and> py_float L s = Inr v)"
  by (auto simp: extract_review_def split: option.splits sum.splits)

lemma upto_5: "[1..5] = [1, 2, 3, 4, 5::int]"
  by code_simp

lemma sample_scrape:
  "scrape_reviews_for_movie sample_web sample_lib sample_movie_url 5 =
     ([reviews_page_url sample_movie_url 1, reviews_page_url sample_movie_url 2,
       reviews_page_url sample_movie_url 3],
      Inr [\<lparr>movie_id = ascii ''123'', review_text = Some (ascii ''Great film''), rating = Some 9,
             review_date = Some (Date 5 3 2023), author = Some (ascii ''ann'')\<rparr>,
           \<lparr>movie_id = ascii ''123'', review_text = Some (ascii ''So so''), rating = Some 11,
             review_date = None, author = Some []\<rparr>,
           \<lparr>movie_id = ascii ''123'', review_text = Some [], rating = None,
             review_date = None, author = Some (ascii ''bob'')\<rparr>])"
  by (simp add: scrape_reviews_for_movie_def upto_5 sample_web_def reviews_page_url_def
      py_str_int_def sample_movie_url_def movie_id_of_def extract_review_def block_a_def
      block_b_def block_c_def sample_lib_def sample_float_def sample_strptime_def
      sample_isdigit_def days_in_month_def)

lemma scrape_stops_at_empty_page:
  assumes "0 \<le> k" and "k < max_pages"
    and "\<forall>p\<in>{1..k}. good_page W movie_url p"
    and "W (reviews_page_url movie_url (k + 1)) = Inr []"
  shows "scrape_reviews_for_movie W L movie_url max_pages =
     (map (reviews_page_url movie_url) [1..k + 1],
      Inr (concat (map (page_reviews W L movie_url) [1..k])))"
proof -
  have split: "[1..max_pages] = [1..k] @ (k + 1) # [k + 2..max_pages]"
    using assms(1,2) upto_split3 [of 1 "k + 1" max_pages] by (simp add: add.commute)
  have urls: "[1..k + 1] = [1..k] @ [k + 1]"
    using assms(1) upto_rec2 [of 1 "k + 1"] by simp
  have good: "\<forall>p\<in>set [1..k]. good_page W movie_url p"
    using assms(3) by simp
  have "(\<lambda>p. map (extract_review L (movie_id_of movie_url)) (page_blocks W movie_url p)) =
      page_reviews W L movie_url"
    by (simp add: fun_eq_iff page_reviews_def)
  then show ?thesis
    unfolding scrape_reviews_for_movie_def split
    using assms(4)
    by (simp add: scrape_pages_good_prefix [OF good] urls)
qed

lemma scrape_all_pages:
  assumes "\<forall>p\<in>{1..max_pages}. good_page W movie_url p"
  shows "scrape_reviews_for_movie W L movie_url max_pages =
     (map (reviews_page_url movie_url) [1..max_pages],
      Inr (concat (map (page_reviews W L movie_url) [1..max_pages])))"
proof -
  have good: "\<forall>p\<in>set [1..max_pages]. good_page W movie_url p"
    using assms by simp
  have "(\<lambda>p. map (extract_review L (movie_id_of movie_url)) (page_blocks W movie_url p)) =
      page_reviews W L movie_url"
    by (simp add: fun_eq_iff page_reviews_def)
  then show ?thesis
    unfolding scrape_reviews_for_movie_def
    using scrape_pages_good_prefix [OF good, of L "movie_id_of movie_url" "[]" "[]" "[]"]
    by simp
qed

lemma scrape_page_cap:
  "length (fst (scrape_reviews_for_movie W L movie_url max_pages)) \<le> nat max_pages"
  using scrape_pages_length [of W L movie_url "movie_id_of movie_url" "[1..max_pages]" "[]" "[]"]
  by (simp add: scrape_reviews_for_movie_def)


lemma sample_pages:
  "sample_web (reviews_page_url sample_movie_url 1) = Inr [block_a, block_b]"
  "sample_web (reviews_page_url sample_movie_url 2) = Inr [block_c]"
  "sample_web (reviews_page_url sample_movie_url 3) = Inr []"
  by (simp_all add: sample_web_def reviews_page_url_def py_str_int_def)

lemma sample_good_pages: "\<forall>p\<in>{1..2}. good_page sample_web sample_movie_url p"
proof
  fix p :: int
  assume "p \<in> {1..2}"
  then have "p = 1 \<or> p = 2"
    by auto
  then show "good_page sample_web sample_movie_url p"
    by (auto simp: good_page_def sample_pages)
qed


lemma url_reviews_Inr:
  "W url = Inr bs \<Longrightarrow> url_reviews W L mid url = map (extract_review L mid) bs"
  by (simp add: url_reviews_def)

lemma scrape_pages_output:
  "snd (scrape_pages W L u mid ps reviews req) = Inr out \<Longrightarrow>
   reviews = concat (map (url_reviews W L mid) req) \<Longrightarrow>
   out = concat (map (url_reviews W L mid) (fst (scrape_pages W L u mid ps reviews req)))"
proof (induction ps arbitrary: reviews req)
  case Nil
  then show ?case by simp
next
  case (Cons p ps)
  show ?case
  proof (cases "W (reviews_page_url u p)")
    case (Inl e)
    with Cons.prems show ?thesis by simp
  next
    case (Inr bs)
    show ?thesis
    proof (cases "bs = []")
      case True
      with Inr Cons.prems show ?thesis
        by (simp add: url_reviews_Inr)
    next
      case False
      have "append_blocks L mid bs reviews =
          concat (map (url_reviews W L mid) (req @ [reviews_page_url u p]))"
        using Inr Cons.prems(2) by (simp add: append_blocks_map url_reviews_Inr)
      moreover have "snd (scrape_pages W L u mid ps (append_blocks L mid bs reviews)
          (req @ [reviews_page_url u p])) = Inr out"
        using Cons.prems(1) Inr False by simp
      ultimately have "out = concat (map (url_reviews W L mid)
          (fst (scrape_pages W L u mid ps (append_blocks L mid bs reviews)
             (req @ [reviews_page_url u p]))))"
        by (rule Cons.IH [rotated])
      then show ?thesis
        using Inr False by simp
    qed
  qed
qed

lemma scrape_pages_requested_prefix:
  "\<exists>more. fst (scrape_pages W L u mid ps reviews req) = req @ more"
proof (induction ps arbitrary: reviews req)
  case Nil
  then show ?case by simp
next
  case (Cons p ps)
  show ?case
  proof (cases "W (reviews_page_url u p)")
    case (Inl e)
    then show ?thesis by simp
  next
    case (Inr bs)
    show ?thesis
    proof (cases "bs = []")
      case True
      with Inr show ?thesis by simp
    next
      case False
      obtain more where "fst (scrape_pages W L u mid ps (append_blocks L mid bs reviews)
          (req @ [reviews_page_url u p])) = (req @ [reviews_page_url u p]) @ more"
        using Cons.IH by blast
      with Inr False show ?thesis by simp
    qed
  qed
qed

lemma scrape_output:
  assumes "snd (scrape_reviews_for_movie W L movie_url max_pages) = Inr out"
  shows "out = concat (map (url_reviews W L (movie_id_of movie_url))
           (fst (scrape_reviews_for_movie W L movie_url max_pages)))"
  using assms scrape_pages_output [of W L movie_url "movie_id_of movie_url" "[1..max_pages]"
      "[]" "[]" out]
  by (simp add: scrape_reviews_for_movie_def)

lemma first_page_requested:
  assumes "1 \<le> max_pages"
  shows "reviews_page_url movie_url 1 \<in> set (fst (scrape_reviews_for_movie W L movie_url max_pages))"
proof -
  have pages: "[1..max_pages] = 1 # [2..max_pages]"
    using assms upto_rec1 [of 1 max_pages] by simp
  show ?thesis
  proof (cases "W (reviews_page_url movie_url 1)")
    case (Inl e)
    then show ?thesis
      by (simp add: scrape_reviews_for_movie_def pages)
  next
    case (Inr bs)
    show ?thesis
    proof (cases "bs = []")
      case True
      with Inr show ?thesis
        by (simp add: scrape_reviews_for_movie_def pages)
    next
      case False
      obtain more where "fst (scrape_pages W L movie_url (movie_id_of movie_url) [2..max_pages]
          (append_blocks L (movie_id_of movie_url) bs []) [reviews_page_url movie_url 1]) =
          [reviews_page_url movie_url 1] @ more"
        using scrape_pages_requested_prefix by blast
      with Inr False show ?thesis
        by (simp add: scrape_reviews_for_movie_def pages)
    qed
  qed
qed

lemma scrape_rows_from_requested_blocks:
  assumes "snd (scrape_reviews_for_movie W L movie_url max_pages) = Inr out"
    and "r \<in> set out"
  shows "\<exists>url blocks b. url \<in> set (fst (scrape_reviews_for_movie W L movie_url max_pages)) \<and>
           W url = Inr blocks \<and> b \<in> set blocks \<and>
           r = extract_review L (movie_id_of movie_url) b"
proof -
  from assms scrape_output [OF assms(1)]
  obtain url where url: "url \<in> set (fst (scrape_reviews_for_movie W L movie_url max_pages))"
    and r: "r \<in> set (url_reviews W L (movie_id_of movie_url) url)"
    by auto
  from r obtain blocks b where "W url = Inr blocks" "b \<in> set blocks"
    "r = extract_review L (movie_id_of movie_url) b"
    by (cases "W url") (auto simp: url_reviews_def)
  with url show ?thesis by blast
qed

lemma scrape_keeps_requested_blocks:
  assumes "snd (scrape_reviews_for_movie W L movie_url max_pages) = Inr out"
    and "url \<in> set (fst (scrape_reviews_for_movie W L movie_url max_pages))"
    and "W url = Inr blocks" and "b \<in> set blocks"
  shows "extract_review L (movie_id_of movie_url) b \<in> set out"
proof -
  from assms(3,4) have "extract_review L (movie_id_of movie_url) b \<in>
      set (url_reviews W L (movie_id_of movie_url) url)"
    by (simp add: url_reviews_Inr)
  with assms(2) show ?thesis
    unfolding scrape_output [OF assms(1)] by auto
qed


text \<open>
  C7, as the claim states it, at a concrete site: a block whose rating text is \<open>11\<close>
  yields a row whose rating is the non-null float \<open>11.0\<close>, outside \<open>[0, 10]\<close>. The
  collector parses the text and never compares the value with a bound.
\<close>

theorem rating_out_of_range_counterexample:
  "rating_el block_b = Some (ascii ''11'') \<and>
   map rating
     (case snd (scrape_reviews_for_movie sample_web sample_lib sample_movie_url 5) of
        Inr reviews \<Rightarrow> reviews | Inl e \<Rightarrow> []) = [Some 9, Some 11, None] \<and>
   \<not> ((0::real) \<le> 11 \<and> (11::real) \<le> 10)"
  by (simp add: sample_scrape block_b_def)

text \<open>
  C7 (amended): in every row produced by the collector, a non-null rating is exactly the
  float that \<open>float\<close> parsed from the rating text of a review block of a page the
  collector requested, and the row is the one extracted from that block; conversely every
  block of a requested page whose rating text parses gives a row of the result with
  exactly that value, and page 1 is requested whenever \<open>max_pages\<close> is positive. No
  range is enforced, so the rating lies in \<open>[0, 10]\<close> only when the value on the page does.
\<close>

theorem rating_is_parsed_value:
  "(rating (extract_review L mid b) = Some v \<longleftrightarrow>
      (\<exists>s. rating_el b = Some s \<and> py_float L s = Inr v)) \<and>
   (snd (scrape_reviews_for_movie W L movie_url max_pages) = Inr reviews \<and>
    r \<in> set reviews \<and> rating r = Some v \<longrightarrow>
      (\<exists>url blocks b' s.
         url \<in> set (fst (scrape_reviews_for_movie W L movie_url max_pages)) \<and>
         W url = Inr blocks \<and> b' \<in> set blocks \<and>
         r = extract_review L (movie_id_of movie_url) b' \<and>
         rating_el b' = Some s \<and> py_float L s = Inr v)) \<and>
   (snd (scrape_reviews_for_movie W L movie_url max_pages) = Inr reviews \<and>
    page \<in> set (fst (scrape_reviews_for_movie W L movie_url max_pages)) \<and>
    W page = Inr cs \<and> c \<in> set cs \<and>
    rating_el c = Some t \<and> py_float L t = Inr w \<longrightarrow>
      extract_review L (movie_id_of movie_url) c \<in> set reviews \<and>
      rating (extract_review L (movie_id_of movie_url) c) = Some w) \<and>
   (1 \<le> max_pages \<longrightarrow>
      reviews_page_url movie_url 1 \<in>
        set (fst (scrape_reviews_for_movie W L movie_url max_pages)))"
proof (intro conjI impI)
  show "rating (extract_review L mid b) = Some v \<longleftrightarrow>
      (\<exists>s. rating_el b = Some s \<and> py_float L s = Inr v)"
    by (rule rating_extract_review)
next
  assume a: "snd (scrape_reviews_for_movie W L movie_url max_pages) = Inr reviews \<and>
    r \<in> set reviews \<and> rating r = Some v"
  then obtain url blocks b' where b': "url \<in> set (fst (scrape_reviews_for_movie W L movie_url max_pages))"
    "W url = Inr blocks" "b' \<in> set blocks" "r = extract_review L (movie_id_of movie_url) b'"
    using scrape_rows_from_requested_blocks [of W L movie_url max_pages reviews r] by blast
  with a obtain s where "rating_el b' = Some s" "py_float L s = Inr v"
    using rating_extract_review [of L "movie_id_of movie_url" b' v] by auto
  with b' show "\<exists>url blocks b' s.
         url \<in> set (fst (scrape_reviews_for_movie W L movie_url max_pages)) \<and>
         W url = Inr blocks \<and> b' \<in> set blocks \<and>
         r = extract_review L (movie_id_of movie_url) b' \<and>
         rating_el b' = Some s \<and> py_float L s = Inr v"
    by blast
next
  assume a: "snd (scrape_reviews_for_movie W L movie_url max_pages) = Inr reviews \<and>
    page \<in> set (fst (scrape_reviews_for_movie W L movie_url max_pages)) \<and>
    W page = Inr cs \<and> c \<in> set cs \<and>
    rating_el c = Some t \<and> py_float L t = Inr w"
  then show "extract_review L (movie_id_of movie_url) c \<in> set reviews"
    using scrape_keeps_requested_blocks [of W L movie_url max_pages reviews page cs c]
    by blast
  from a show "rating (extract_review L (movie_id_of movie_url) c) = Some w"
    using rating_extract_review [of L "movie_id_of movie_url" c w] by blast
next
  assume "1 \<le> max_pages"
  then show "reviews_page_url movie_url 1 \<in>
        set (fst (scrape_reviews_for_movie W L movie_url max_pages))"
    by (rule first_page_requested)
qed

theorem rating_is_parsed_value_witness:
  "rating (extract_review sample_lib (ascii ''123'') block_b) = Some 11 \<and>
   (\<exists>url blocks b' s.
      url \<in> set (fst (scrape_reviews_for_movie sample_web sample_lib sample_movie_url 5)) \<and>
      sample_web url = Inr blocks \<and> b' \<in> set blocks \<and>
      rating_el b' = Some s \<and> py_float sample_lib s = Inr 11) \<and>
   reviews_page_url sample_movie_url 1 \<in>
     set (fst (scrape_reviews_for_movie sample_web sample_lib sample_movie_url 5)) \<and>
   (\<exists>reviews. snd (scrape_reviews_for_movie sample_web sample_lib sample_movie_url 5) =
      Inr reviews \<and> extract_review sample_lib (movie_id_of sample_movie_url) block_b \<in> set reviews)"
proof -
  let ?r = "\<lparr>movie_id = ascii ''123'', review_text = Some (ascii ''So so''), rating = Some 11,
             review_date = None, author = Some []\<rparr>"
  let ?out = "[\<lparr>movie_id = ascii ''123'', review_text = Some (ascii ''Great film''),
               rating = Some 9, review_date = Some (Date 5 3 2023),
               author = Some (ascii ''ann'')\<rparr>,
             ?r,
             \<lparr>movie_id = ascii ''123'', review_text = Some [], rating = None,
               review_date = None, author = Some (ascii ''bob'')\<rparr>]"
  have p: "rating_el block_b = Some (ascii ''11'') \<and> py_float sample_lib (ascii ''11'') = Inr 11"
    by (simp add: block_b_def sample_lib_def sample_float_def sample_isdigit_def)
  have out: "snd (scrape_reviews_for_movie sample_web sample_lib sample_movie_url 5) = Inr ?out"
    by (simp add: sample_scrape)
  have r: "?r \<in> set ?out \<and> rating ?r = Some 11"
    by simp
  have one: "(1::int) \<le> 5"
    by simp
  note th = rating_is_parsed_value
    [of sample_lib "ascii ''123''" block_b 11 sample_web sample_movie_url 5 ?out ?r
      "reviews_page_url sample_movie_url 1" "[block_a, block_b]" block_b "ascii ''11''" 11]
  from th p have "rating (extract_review sample_lib (ascii ''123'') block_b) = Some 11"
    by blast
  moreover from th out r
  have "\<exists>url blocks b' s.
      url \<in> set (fst (scrape_reviews_for_movie sample_web sample_lib sample_movie_url 5)) \<and>
      sample_web url = Inr blocks \<and> b' \<in> set blocks \<and>
      rating_el b' = Some s \<and> py_float sample_lib s = Inr 11"
    by blast
  moreover from th one
  have first: "reviews_page_url sample_movie_url 1 \<in>
     set (fst (scrape_reviews_for_movie sample_web sample_lib sample_movie_url 5))"
    by blast
  moreover from th out first sample_pages(1) p
  have "extract_review sample_lib (movie_id_of sample_movie_url) block_b \<in> set ?out"
    by simp
  ultimately show ?thesis
    using out by blast
qed

text \<open>
  C8: for every movie URL and every \<open>max_pages\<close>, the collector requests at most
  \<open>max_pages\<close> pages (none when \<open>max_pages\<close> is not positive); when pages \<open>1\<close> to \<open>k\<close>
  yield review blocks and page \<open>k + 1\<close> (within the cap) yields none, it requests exactly
  pages \<open>1\<close> to \<open>k + 1\<close>, raises nothing and returns exactly the rows of pages \<open>1\<close> to
  \<open>k\<close>, in order; and when all \<open>max_pages\<close> pages yield blocks, it returns the rows of
  all of them.
\<close>

theorem scrape_early_stop_and_page_cap:
  "length (fst (scrape_reviews_for_movie W L movie_url max_pages)) \<le> nat max_pages \<and>
   (0 \<le> k \<and> k < max_pages \<and> (\<forall>p\<in>{1..k}. good_page W movie_url p) \<and>
      W (reviews_page_url movie_url (k + 1)) = Inr [] \<longrightarrow>
    scrape_reviews_for_movie W L movie_url max_pages =
      (map (reviews_page_url movie_url) [1..k + 1],
       Inr (concat (map (page_reviews W L movie_url) [1..k])))) \<and>
   ((\<forall>p\<in>{1..max_pages}. good_page W movie_url p) \<longrightarrow>
    scrape_reviews_for_movie W L movie_url max_pages =
      (map (reviews_page_url movie_url) [1..max_pages],
       Inr (concat (map (page_reviews W L movie_url) [1..max_pages]))))"
  using scrape_page_cap [of W L movie_url max_pages]
    scrape_stops_at_empty_page [of k max_pages W movie_url L]
    scrape_all_pages [of max_pages W movie_url L]
  by blast

theorem scrape_early_stop_and_page_cap_witness:
  "length (fst (scrape_reviews_for_movie sample_web sample_lib sample_movie_url 5)) \<le> 5 \<and>
   fst (scrape_reviews_for_movie sample_web sample_lib sample_movie_url 5) =
     [reviews_page_url sample_movie_url 1, reviews_page_url sample_movie_url 2,
      reviews_page_url sample_movie_url 3] \<and>
   snd (scrape_reviews_for_movie sample_web sample_lib sample_movie_url 5) =
     Inr (map (extract_review sample_lib (ascii ''123'')) [block_a, block_b, block_c])"
proof -
  have u3: "[1..3] = [1, 2, 3::int]" and u2: "[1..2] = [1, 2::int]"
    by code_simp+
  have mid: "movie_id_of sample_movie_url = ascii ''123''"
    by (simp add: movie_id_of_def sample_movie_url_def)
  have pre: "(0::int) \<le> 2 \<and> (2::int) < 5 \<and> (\<forall>p\<in>{1..2}. good_page sample_web sample_movie_url p) \<and>
      sample_web (reviews_page_url sample_movie_url (2 + 1)) = Inr []"
    using sample_good_pages sample_pages(3) by simp
  note th = scrape_early_stop_and_page_cap [of sample_web sample_lib sample_movie_url 5 2]
  from th pre have "scrape_reviews_for_movie sample_web sample_lib sample_movie_url 5 =
      (map (reviews_page_url sample_movie_url) [1..2 + 1],
       Inr (concat (map (page_reviews sample_web sample_lib sample_movie_url) [1..2])))"
    by blast
  moreover from th
  have "length (fst (scrape_reviews_for_movie sample_web sample_lib sample_movie_url 5)) \<le> 5"
    by simp
  ultimately show ?thesis
    by (simp add: u3 u2 page_reviews_def page_blocks_def sample_pages mid)
qed




end
